theory Spec2Isabelle
  imports Complex_Main "HOL-Library.Word" "HOL-Library.Monad_Syntax"
begin

section \<open>JavaScript numbers\<close>

text \<open>
  A JavaScript number is an IEEE double. The detector only ever forms integers far below
  \<open>2^53\<close> (sums and products of bytes, a counter, the frame area), one square root that is
  compared with 50, and one quotient of two such integers that is compared with the literals
  0.02 and 0.15. On these values the double operations agree with the exact ones: integer
  arithmetic is exact, the correctly rounded square root of an integer \<open>n\<close> exceeds 50 exactly
  when \<open>n > 2500\<close>, and a correctly rounded quotient \<open>a / b\<close> with \<open>b < 2^51\<close> lies on the same
  side of the double nearest to 1/50 (or 3/20) as the exact quotient lies of 1/50 (or 3/20).
  So a finite number is modelled by a real, next to the three special values a double has.
\<close>

datatype number = Num real | PosInfinity | NegInfinity | NaN

text \<open>The relational operators \<open>a > b\<close> and \<open>a < b\<close>: every comparison with NaN is false.\<close>

fun num_gt :: "number \<Rightarrow> number \<Rightarrow> bool" where
  "num_gt NaN b = False"
| "num_gt a NaN = False"
| "num_gt (Num a) (Num b) = (a > b)"
| "num_gt (Num a) PosInfinity = False"
| "num_gt (Num a) NegInfinity = True"
| "num_gt PosInfinity PosInfinity = False"
| "num_gt PosInfinity b = True"
| "num_gt NegInfinity b = False"

definition num_lt :: "number \<Rightarrow> number \<Rightarrow> bool" where
  "num_lt a b = num_gt b a"

text \<open>\<open>Math.sqrt\<close>.\<close>

fun Math_sqrt :: "number \<Rightarrow> number" where
  "Math_sqrt (Num r) = (if r < 0 then NaN else Num (sqrt r))"
| "Math_sqrt PosInfinity = PosInfinity"
| "Math_sqrt NegInfinity = NaN"
| "Math_sqrt NaN = NaN"

text \<open>
  The quotient \<open>a / b\<close> of two non-negative integers: \<open>0 / 0\<close> is NaN and \<open>a / 0\<close> with
  \<open>a > 0\<close> is Infinity.
\<close>

definition num_div :: "nat \<Rightarrow> nat \<Rightarrow> number" where
  "num_div a b =
     (if b = 0 then (if a = 0 then NaN else PosInfinity) else Num (real a / real b))"

section \<open>Frames\<close>

text \<open>
  An \<open>ImageData\<close>: the pixel buffer (a \<open>Uint8ClampedArray\<close>, four bytes R, G, B, A per pixel,
  row-major) with the width and the height of the frame.
\<close>

record ImageData =
  data :: "8 word list"
  width :: nat
  height :: nat

text \<open>
  Reading \<open>data[i]\<close>: a byte inside the buffer, \<open>undefined\<close> outside. In the arithmetic below
  \<open>undefined\<close> becomes NaN and NaN propagates, so \<open>None\<close> stands for both.
\<close>

definition data_at :: "8 word list \<Rightarrow> int \<Rightarrow> int option" where
  "data_at d i = (if 0 \<le> i \<and> i < int (length d) then Some (uint (d ! nat i)) else None)"

section \<open>The state of the camera component\<close>

text \<open>
  The mutable state of \<open>CameraRecorder\<close>, inside which \<open>detectRectangularObject\<close> and
  \<open>detectPhone\<close> are closures: the two \<open>useState\<close> cells and the pending \<open>setTimeout\<close>
  callbacks (their delays in milliseconds), each of which calls \<open>setShowPhoneToast(false)\<close>
  when it fires.
\<close>

record component =
  phoneDetected :: bool
  showPhoneToast :: bool
  timeouts :: "nat list"

section \<open>The detector\<close>

text \<open>
  The body of the inner loop of \<open>detectRectangularObject\<close> at pixel \<open>(x, y)\<close>. The local
  \<open>gray\<close> is computed by the source and never read again; the local \<open>rectangularShapes\<close>
  is set to 0 and never touched.
\<close>

definition gray :: "'a ImageData_scheme \<Rightarrow> int \<Rightarrow> int \<Rightarrow> real option" where
  "gray f x y =
     (let idx = (y * int (width f) + x) * 4 in
      do {
        r \<leftarrow> data_at (data f) idx;
        g \<leftarrow> data_at (data f) (idx + 1);
        b \<leftarrow> data_at (data f) (idx + 2);
        Some (real_of_int (r + g + b) / 3)
      })"

definition gx :: "'a ImageData_scheme \<Rightarrow> int \<Rightarrow> int \<Rightarrow> int option" where
  "gx f x y =
     do {
       a \<leftarrow> data_at (data f) (((y - 1) * int (width f) + (x - 1)) * 4);
       b \<leftarrow> data_at (data f) (((y - 1) * int (width f) + (x + 1)) * 4);
       c \<leftarrow> data_at (data f) ((y * int (width f) + (x - 1)) * 4);
       d \<leftarrow> data_at (data f) ((y * int (width f) + (x + 1)) * 4);
       e \<leftarrow> data_at (data f) (((y + 1) * int (width f) + (x - 1)) * 4);
       g \<leftarrow> data_at (data f) (((y + 1) * int (width f) + (x + 1)) * 4);
       Some (- a + b + - 2 * c + 2 * d + - e + g)
     }"

definition gy :: "'a ImageData_scheme \<Rightarrow> int \<Rightarrow> int \<Rightarrow> int option" where
  "gy f x y =
     do {
       a \<leftarrow> data_at (data f) (((y - 1) * int (width f) + (x - 1)) * 4);
       b \<leftarrow> data_at (data f) (((y - 1) * int (width f) + x) * 4);
       c \<leftarrow> data_at (data f) (((y - 1) * int (width f) + (x + 1)) * 4);
       d \<leftarrow> data_at (data f) (((y + 1) * int (width f) + (x - 1)) * 4);
       e \<leftarrow> data_at (data f) (((y + 1) * int (width f) + x) * 4);
       g \<leftarrow> data_at (data f) (((y + 1) * int (width f) + (x + 1)) * 4);
       Some (- a - 2 * b - c + d + 2 * e + g)
     }"

definition magnitude :: "'a ImageData_scheme \<Rightarrow> int \<Rightarrow> int \<Rightarrow> number" where
  "magnitude f x y =
     (case (gx f x y, gy f x y) of
        (Some gx', Some gy') \<Rightarrow> Math_sqrt (Num (real_of_int (gx' * gx' + gy' * gy')))
      | _ \<Rightarrow> NaN)"

text \<open>The inner loop \<open>for (let x = \<dots>; x < width - 1; x++)\<close> of row \<open>y\<close>, from \<open>x\<close> on.\<close>

function cols :: "'a ImageData_scheme \<Rightarrow> int \<Rightarrow> int \<Rightarrow> nat \<Rightarrow> nat" where
  "cols f y x edgeCount =
     (if x < int (width f) - 1
      then let gray' = gray f x y
           in cols f y (x + 1)
                (if num_gt (magnitude f x y) (Num 50) then edgeCount + 1 else edgeCount)
      else edgeCount)"
  by pat_completeness auto
termination
  by (relation "measure (\<lambda>(f, y, x, edgeCount). nat (int (width f) - 1 - x))") auto

text \<open>The outer loop \<open>for (let y = \<dots>; y < height - 1; y++)\<close>, from \<open>y\<close> on.\<close>

function rows :: "'a ImageData_scheme \<Rightarrow> int \<Rightarrow> nat \<Rightarrow> nat" where
  "rows f y edgeCount =
     (if y < int (height f) - 1 then rows f (y + 1) (cols f y 1 edgeCount) else edgeCount)"
  by pat_completeness auto
termination
  by (relation "measure (\<lambda>(f, y, edgeCount). nat (int (height f) - 1 - y))") auto

text \<open>
  The same two loops as a run inside the component. The closure can reach the component's
  state, so a run takes the state and gives it back with the counter; a run that never
  returned would be \<open>None\<close>. Every operation of the body has a value in JavaScript (a read
  outside the buffer is \<open>undefined\<close>, \<open>0 / 0\<close> is NaN), so a run has no other way to fail.
\<close>

partial_function (option) run_cols ::
    "'a ImageData_scheme \<Rightarrow> int \<Rightarrow> int \<Rightarrow> nat \<Rightarrow> component \<Rightarrow> (nat \<times> component) option" where
  "run_cols f y x edgeCount s =
     (if x < int (width f) - 1
      then let gray' = gray f x y
           in run_cols f y (x + 1)
                (if num_gt (magnitude f x y) (Num 50) then edgeCount + 1 else edgeCount) s
      else Some (edgeCount, s))"

partial_function (option) run_rows ::
    "'a ImageData_scheme \<Rightarrow> int \<Rightarrow> nat \<Rightarrow> component \<Rightarrow> (nat \<times> component) option" where
  "run_rows f y edgeCount s =
     (if y < int (height f) - 1
      then do {
             (edgeCount', s') \<leftarrow> run_cols f y 1 edgeCount s;
             run_rows f (y + 1) edgeCount' s'
           }
      else Some (edgeCount, s))"

definition run_detectRectangularObject ::
    "'a ImageData_scheme \<Rightarrow> component \<Rightarrow> (bool \<times> component) option" where
  "run_detectRectangularObject imageData s =
     do {
       (edgeCount, s') \<leftarrow> run_rows imageData 1 0 s;
       let edgeRatio = num_div edgeCount (width imageData * height imageData);
       Some (num_gt edgeRatio (Num 0.02) \<and> num_lt edgeRatio (Num 0.15), s')
     }"

text \<open>The function itself: the count, the ratio and the band test.\<close>

definition edgeCount :: "'a ImageData_scheme \<Rightarrow> nat" where
  "edgeCount f = rows f 1 0"

definition edgeRatio :: "'a ImageData_scheme \<Rightarrow> number" where
  "edgeRatio f = num_div (edgeCount f) (width f * height f)"

definition detectRectangularObject :: "'a ImageData_scheme \<Rightarrow> bool" where
  "detectRectangularObject f =
     (num_gt (edgeRatio f) (Num 0.02) \<and> num_lt (edgeRatio f) (Num 0.15))"

declare cols.simps [simp del] rows.simps [simp del]

text \<open>The test of the loop body, and the pixels it counts from column \<open>x\<close> or row \<open>y\<close> on.\<close>

definition is_edge :: "'a ImageData_scheme \<Rightarrow> int \<Rightarrow> int \<Rightarrow> bool" where
  "is_edge f x y = num_gt (magnitude f x y) (Num 50)"

definition row_edges :: "'a ImageData_scheme \<Rightarrow> int \<Rightarrow> int \<Rightarrow> int set" where
  "row_edges f y x = {x'. x \<le> x' \<and> x' \<le> int (width f) - 2 \<and> is_edge f x' y}"

definition edges_from :: "'a ImageData_scheme \<Rightarrow> int \<Rightarrow> (int \<times> int) set" where
  "edges_from f y =
     {(x', y'). 1 \<le> x' \<and> x' \<le> int (width f) - 2 \<and> y \<le> y' \<and> y' \<le> int (height f) - 2
        \<and> is_edge f x' y'}"

section \<open>The detector as the specification words it\<close>

text \<open>
  A well-formed frame holds four bytes for each of its \<open>W * H\<close> pixels. \<open>spec_P f i j\<close> is
  the red-channel value of pixel \<open>(i, j)\<close>: channel 0 of the pixel at row \<open>j\<close>, column \<open>i\<close>
  of the row-major buffer.
\<close>

definition well_formed :: "'a ImageData_scheme \<Rightarrow> bool" where
  "well_formed f = (length (data f) = 4 * (width f * height f))"

definition spec_P :: "'a ImageData_scheme \<Rightarrow> int \<Rightarrow> int \<Rightarrow> int" where
  "spec_P f i j = uint (data f ! (4 * (nat j * width f + nat i) + 0))"

definition spec_gx :: "'a ImageData_scheme \<Rightarrow> int \<Rightarrow> int \<Rightarrow> int" where
  "spec_gx f x y =
     - spec_P f (x - 1) (y - 1) + spec_P f (x + 1) (y - 1)
     - 2 * spec_P f (x - 1) y + 2 * spec_P f (x + 1) y
     - spec_P f (x - 1) (y + 1) + spec_P f (x + 1) (y + 1)"

definition spec_gy :: "'a ImageData_scheme \<Rightarrow> int \<Rightarrow> int \<Rightarrow> int" where
  "spec_gy f x y =
     - spec_P f (x - 1) (y - 1) - 2 * spec_P f x (y - 1) - spec_P f (x + 1) (y - 1)
     + spec_P f (x - 1) (y + 1) + 2 * spec_P f x (y + 1) + spec_P f (x + 1) (y + 1)"

definition spec_magnitude :: "'a ImageData_scheme \<Rightarrow> int \<Rightarrow> int \<Rightarrow> real" where
  "spec_magnitude f x y = sqrt (real_of_int ((spec_gx f x y)\<^sup>2 + (spec_gy f x y)\<^sup>2))"

definition spec_edgeCount :: "'a ImageData_scheme \<Rightarrow> nat" where
  "spec_edgeCount f =
     card {(x, y). 1 \<le> x \<and> x \<le> int (width f) - 2 \<and> 1 \<le> y \<and> y \<le> int (height f) - 2
             \<and> spec_magnitude f x y > 50}"

definition spec_edgeRatio :: "'a ImageData_scheme \<Rightarrow> real" where
  "spec_edgeRatio f = real (spec_edgeCount f) / real (width f * height f)"

definition spec_present :: "'a ImageData_scheme \<Rightarrow> bool" where
  "spec_present f = (spec_edgeRatio f > 0.02 \<and> spec_edgeRatio f < 0.15)"

text \<open>A uniformly flat frame: every pixel has the colour of the first one.\<close>

definition flat :: "'a ImageData_scheme \<Rightarrow> bool" where
  "flat f =
     (\<forall>p < width f * height f.
        data f ! (4 * p) = data f ! 0 \<and> data f ! (4 * p + 1) = data f ! 1
        \<and> data f ! (4 * p + 2) = data f ! 2)"

text \<open>Two frames of the same size whose red channels agree at every pixel.\<close>

definition same_red :: "'a ImageData_scheme \<Rightarrow> 'b ImageData_scheme \<Rightarrow> bool" where
  "same_red f g =
     (width f = width g \<and> height f = height g \<and>
      (\<forall>i j. 0 \<le> i \<and> i < int (width f) \<and> 0 \<le> j \<and> j < int (height f)
             \<longrightarrow> spec_P f i j = spec_P g i j))"

section \<open>Sample frames\<close>

text \<open>A frame of one colour, pixel by pixel.\<close>

definition solid :: "nat \<Rightarrow> nat \<Rightarrow> 8 word \<Rightarrow> 8 word \<Rightarrow> 8 word \<Rightarrow> 8 word \<Rightarrow> ImageData" where
  "solid w h r g b a = \<lparr>data = concat (replicate (w * h) [r, g, b, a]), width = w, height = h\<rparr>"

text \<open>
  A 3x3 frame with a vertical edge: red is 0 in the left and the middle column and 255 in the
  right one. \<open>edge3_tinted\<close> has the same red channel and other green, blue and alpha values,
  and \<open>edge3_srgb\<close> is \<open>edge3\<close> carrying a further attribute.
\<close>

definition edge3 :: ImageData where
  "edge3 = \<lparr>data = [0, 0, 0, 255,  0, 0, 0, 255,  255, 255, 255, 255,
                    0, 0, 0, 255,  0, 0, 0, 255,  255, 255, 255, 255,
                    0, 0, 0, 255,  0, 0, 0, 255,  255, 255, 255, 255],
            width = 3, height = 3\<rparr>"

definition edge3_tinted :: ImageData where
  "edge3_tinted = \<lparr>data = [0, 9, 200, 255,  0, 77, 3, 10,  255, 0, 0, 0,
                           0, 1, 2, 3,  0, 255, 255, 128,  255, 40, 50, 60,
                           0, 100, 0, 255,  0, 0, 100, 255,  255, 7, 7, 7],
                   width = 3, height = 3\<rparr>"

definition edge3_srgb :: "string ImageData_scheme" where
  "edge3_srgb = ImageData.extend edge3 ''srgb''"

section \<open>The detection tick of the camera component\<close>

datatype js_error = TypeError

text \<open>
  The value of \<open>this\<close> inside \<open>detectPhone\<close>: \<open>None\<close> is \<open>undefined\<close>, \<open>Some obj\<close> an object
  with boolean properties. \<open>CameraRecorder\<close> and \<open>detectPhone\<close> are arrow functions of an
  ECMAScript module (the file has \<open>import\<close> and \<open>export\<close>), so \<open>this\<close> is the module's:
  \<open>undefined\<close>. Reading a property of \<open>undefined\<close> throws a TypeError; an absent property of
  an object reads \<open>undefined\<close>, which is falsy.
\<close>

type_synonym this_value = "(string \<rightharpoonup> bool) option"

definition module_this :: this_value where
  "module_this = None"

definition this_phoneDetected :: "this_value \<Rightarrow> js_error + bool" where
  "this_phoneDetected this_v =
     (case this_v of
        None \<Rightarrow> Inl TypeError
      | Some obj \<Rightarrow> Inr (case obj ''phoneDetected'' of None \<Rightarrow> False | Some b \<Rightarrow> b))"

text \<open>
  One tick. The frame is \<open>None\<close> when the tick returns early (no video or canvas element, no
  drawing context, a video of width or height 0). The local constant \<open>phoneDetected\<close> of the
  source, which shadows the state cell, is \<open>detected\<close> here. In
  \<open>phoneDetected && !this.phoneDetected\<close> and \<open>!phoneDetected && this.phoneDetected\<close> the
  right operand is evaluated only when the left one is true.
\<close>

definition detectPhone ::
    "this_value \<Rightarrow> 'a ImageData_scheme option \<Rightarrow> component \<Rightarrow> js_error + component" where
  "detectPhone this_v frame s =
     (case frame of
        None \<Rightarrow> Inr s
      | Some imageData \<Rightarrow>
          (let detected = detectRectangularObject imageData in
           if detected then
             (case this_phoneDetected this_v of
                Inl e \<Rightarrow> Inl e
              | Inr prev \<Rightarrow>
                  if \<not> prev
                  then Inr (s\<lparr>phoneDetected := True, showPhoneToast := True,
                              timeouts := timeouts s @ [5000]\<rparr>)
                  else Inr s)
           else
             (case this_phoneDetected this_v of
                Inl e \<Rightarrow> Inl e
              | Inr prev \<Rightarrow> if prev then Inr (s\<lparr>phoneDetected := False\<rparr>) else Inr s)))"

text \<open>Two states of the component: at rest, and with a detection on show.\<close>

definition idle :: component where
  "idle = \<lparr>phoneDetected = False, showPhoneToast = False, timeouts = []\<rparr>"

definition recording :: component where
  "recording = \<lparr>phoneDetected = True, showPhoneToast = True, timeouts = [5000]\<rparr>"

section \<open>The answer evaluation handler of the server\<close>



text \<open>
  An evaluation object, reduced to its score; the texts it carries (\<open>feedback\<close>, \<open>strengths\<close>,
  \<open>improvements\<close>, \<open>keyPoints\<close>) take no part in what follows. An entry of a session's
  \<open>answers\<close> list, without its timestamp, and a session, reduced to that list.
\<close>

record evaluation =
  score :: number

record answer_entry =
  questionId :: string
  question :: string
  answer :: string
  evaluation :: evaluation



text \<open>
  What the handler finds outside itself. \<open>model\<close> is set or null. The call of the AI service
  throws, or gives a text on which \<open>JSON.parse\<close> throws (also when the value has no
  properties to read), or gives a value of which the validation looks at five things: whether
  \<open>typeof score\<close> is \<open>'number'\<close> (and then the number), whether \<open>feedback\<close> is truthy, and
  whether the three lists are arrays. \<open>rnd\<close> is the double that \<open>Math.random()\<close> gives and
  \<open>wordCount\<close> the length of \<open>answer.trim().split(/\s+/)\<close>, \<open>None\<close> when that expression throws (an
  answer that is no string has no \<open>trim\<close>).
\<close>

text \<open>
  A double of the interval from 0 to 1, as \<open>Math.random()\<close> gives one: \<open>significand / 2^scale\<close>
  with a significand of at most 53 bits. Times 4 it is exact. Times 3 the significand may
  get 54 or 55 bits, and the product is rounded to 53 bits, to the nearest and, half-way, to
  the even one: \<open>0.6666666666666666 * 3\<close> is \<open>2\<close>, where the exact product is below 2.
\<close>

record double =
  significand :: nat
  scale :: nat



definition round_even :: "nat \<Rightarrow> nat \<Rightarrow> nat" where
  "round_even n d =
     (let q = n div d; r = n mod d
      in if 2 * r < d then q else if d < 2 * r then q + 1 else if even q then q else q + 1)"

definition times_3 :: "double \<Rightarrow> real" where
  "times_3 d =
     (let p = 3 * significand d
      in if p < 2 ^ 53 then real p / 2 ^ scale d
         else if p < 2 ^ 54 then real (2 * round_even p 2) / 2 ^ scale d
         else real (4 * round_even p 4) / 2 ^ scale d)"






definition fallback_parse :: "double \<Rightarrow> evaluation" where
  "fallback_parse r = \<lparr>score = Num (real_of_int (\<lfloor>times_3 r\<rfloor> + 6))\<rparr>"











section \<open>The loops count the edge pixels of the interior\<close>

lemma sqrt_gt_50: "50 < sqrt r \<longleftrightarrow> 2500 < r"
proof -
  have "sqrt 2500 = 50"
    by (rule real_sqrt_unique) simp_all
  then show ?thesis
    by (metis real_sqrt_less_iff)
qed

lemma finite_row_edges: "finite (row_edges f y x)"
proof (rule finite_subset)
  show "row_edges f y x \<subseteq> {x .. int (width f) - 2}"
    by (auto simp: row_edges_def)
qed simp

lemma row_edges_step:
  assumes "x < int (width f) - 1"
  shows "row_edges f y x =
           (if is_edge f x y then insert x (row_edges f y (x + 1)) else row_edges f y (x + 1))"
proof -
  have eq: "x' = x" if "x \<le> x'" "\<not> x + 1 \<le> x'" for x'
    using that by linarith
  have "row_edges f y x = {x'. x' = x \<and> is_edge f x y} \<union> row_edges f y (x + 1)"
    using assms by (auto simp: row_edges_def dest: eq)
  then show ?thesis
    by auto
qed

lemma row_edges_done: "\<not> x < int (width f) - 1 \<Longrightarrow> row_edges f y x = {}"
  by (auto simp: row_edges_def)

lemma cols_count: "cols f y x c = c + card (row_edges f y x)"
proof (induction f y x c rule: cols.induct)
  case (1 f y x c)
  show ?case
  proof (cases "x < int (width f) - 1")
    case True
    have notin: "x \<notin> row_edges f y (x + 1)"
      by (simp add: row_edges_def)
    show ?thesis
      using True "1.IH" [OF True refl] notin finite_row_edges [of f y "x + 1"]
      by (subst cols.simps) (simp add: row_edges_step is_edge_def Let_def)
  next
    case False
    then show ?thesis
      by (subst cols.simps) (simp add: row_edges_done)
  qed
qed

lemma finite_edges_from: "finite (edges_from f y)"
proof (rule finite_subset)
  show "edges_from f y \<subseteq> {1 .. int (width f) - 2} \<times> {y .. int (height f) - 2}"
    by (auto simp: edges_from_def)
qed simp

lemma edges_from_step:
  assumes "y < int (height f) - 1"
  shows "edges_from f y = (\<lambda>x. (x, y)) ` row_edges f y 1 \<union> edges_from f (y + 1)"
proof -
  have eq: "y' = y" if "y \<le> y'" "\<not> y + 1 \<le> y'" for y'
    using that by linarith
  have "edges_from f y =
          {(x', y'). 1 \<le> x' \<and> x' \<le> int (width f) - 2 \<and> y' = y \<and> is_edge f x' y}
            \<union> edges_from f (y + 1)"
    using assms by (auto simp: edges_from_def dest: eq)
  moreover have "{(x', y'). 1 \<le> x' \<and> x' \<le> int (width f) - 2 \<and> y' = y \<and> is_edge f x' y}
                   = (\<lambda>x. (x, y)) ` row_edges f y 1"
    by (auto simp: row_edges_def)
  ultimately show ?thesis
    by simp
qed

lemma edges_from_done: "\<not> y < int (height f) - 1 \<Longrightarrow> edges_from f y = {}"
  by (auto simp: edges_from_def)

lemma card_edges_from_step:
  assumes "y < int (height f) - 1"
  shows "card (edges_from f y) = card (row_edges f y 1) + card (edges_from f (y + 1))"
proof -
  have disj: "(\<lambda>x. (x, y)) ` row_edges f y 1 \<inter> edges_from f (y + 1) = {}"
    by (auto simp: edges_from_def)
  have inj: "inj_on (\<lambda>x. (x, y)) (row_edges f y 1)"
    by (simp add: inj_on_def)
  have "card (edges_from f y) =
          card ((\<lambda>x. (x, y)) ` row_edges f y 1) + card (edges_from f (y + 1))"
    unfolding edges_from_step [OF assms]
    by (rule card_Un_disjoint) (simp_all add: finite_row_edges finite_edges_from disj)
  then show ?thesis
    by (simp add: card_image [OF inj])
qed

lemma rows_count: "rows f y c = c + card (edges_from f y)"
proof (induction f y c rule: rows.induct)
  case (1 f y c)
  show ?case
  proof (cases "y < int (height f) - 1")
    case True
    show ?thesis
      using True "1.IH" [OF True]
      by (subst rows.simps) (simp add: cols_count card_edges_from_step)
  next
    case False
    then show ?thesis
      by (subst rows.simps) (simp add: edges_from_done)
  qed
qed

lemma edgeCount_card: "edgeCount f = card (edges_from f 1)"
  by (simp add: edgeCount_def rows_count)


section \<open>Every run of the detector returns, with the state it was given\<close>

lemma run_cols_returns: "run_cols f y x c s = Some (cols f y x c, s)"
proof (induction f y x c rule: cols.induct)
  case (1 f y x c)
  show ?case
  proof (cases "x < int (width f) - 1")
    case True
    then show ?thesis
      using "1.IH" [OF True refl]
      by (subst run_cols.simps, subst cols.simps) (simp add: Let_def)
  next
    case False
    then show ?thesis
      by (subst run_cols.simps, subst cols.simps) simp
  qed
qed

lemma run_rows_returns: "run_rows f y c s = Some (rows f y c, s)"
proof (induction f y c rule: rows.induct)
  case (1 f y c)
  show ?case
  proof (cases "y < int (height f) - 1")
    case True
    then show ?thesis
      using "1.IH" [OF True]
      by (subst run_rows.simps, subst rows.simps) (simp add: run_cols_returns)
  next
    case False
    then show ?thesis
      by (subst run_rows.simps, subst rows.simps) simp
  qed
qed

lemma run_detect_returns:
  "run_detectRectangularObject f s = Some (detectRectangularObject f, s)"
  by (simp add: run_detectRectangularObject_def run_rows_returns detectRectangularObject_def
      edgeRatio_def edgeCount_def Let_def)

section \<open>The gradients read the red channel of the eight neighbours\<close>

lemma pixel_index_bound:
  assumes "i < (w::nat)" "j < h"
  shows "j * w + i < w * h"
proof -
  have "j * w + i < j * w + w" using assms by simp
  also have "\<dots> = (j + 1) * w" by simp
  also have "\<dots> \<le> h * w" using assms by (intro mult_le_mono1) simp
  finally show ?thesis by (simp add: mult.commute)
qed

lemma data_at_pixel:
  assumes "well_formed f" "0 \<le> i" "i < int (width f)" "0 \<le> j" "j < int (height f)"
  shows "data_at (data f) ((j * int (width f) + i) * 4) = Some (spec_P f i j)"
proof -
  obtain i' j' where ij: "i = int i'" "j = int j'"
    using assms(2,4) by (metis nonneg_int_cases)
  have lt: "j' * width f + i' < width f * height f"
    using assms(3,5) ij by (intro pixel_index_bound) simp_all
  define n where "n = 4 * (j' * width f + i')"
  have idx: "(j * int (width f) + i) * 4 = int n"
    by (simp add: ij n_def)
  have n: "n < length (data f)"
    using lt assms(1) by (simp add: well_formed_def n_def)
  have "data_at (data f) (int n) = Some (uint (data f ! n))"
    using n by (simp add: data_at_def)
  moreover have "spec_P f i j = uint (data f ! n)"
    by (simp add: spec_P_def ij n_def)
  ultimately show ?thesis
    by (simp only: idx)
qed

lemma gx_spec:
  assumes "well_formed f" "1 \<le> x" "x \<le> int (width f) - 2" "1 \<le> y" "y \<le> int (height f) - 2"
  shows "gx f x y = Some (spec_gx f x y)"
proof -
  have a: "data_at (data f) (((y - 1) * int (width f) + (x - 1)) * 4) = Some (spec_P f (x - 1) (y - 1))"
    using assms by (intro data_at_pixel) simp_all
  have b: "data_at (data f) (((y - 1) * int (width f) + (x + 1)) * 4) = Some (spec_P f (x + 1) (y - 1))"
    using assms by (intro data_at_pixel) simp_all
  have c: "data_at (data f) ((y * int (width f) + (x - 1)) * 4) = Some (spec_P f (x - 1) y)"
    using assms by (intro data_at_pixel) simp_all
  have d: "data_at (data f) ((y * int (width f) + (x + 1)) * 4) = Some (spec_P f (x + 1) y)"
    using assms by (intro data_at_pixel) simp_all
  have e: "data_at (data f) (((y + 1) * int (width f) + (x - 1)) * 4) = Some (spec_P f (x - 1) (y + 1))"
    using assms by (intro data_at_pixel) simp_all
  have g: "data_at (data f) (((y + 1) * int (width f) + (x + 1)) * 4) = Some (spec_P f (x + 1) (y + 1))"
    using assms by (intro data_at_pixel) simp_all
  show ?thesis
    unfolding gx_def a b c d e g by (simp add: spec_gx_def)
qed

lemma gy_spec:
  assumes "well_formed f" "1 \<le> x" "x \<le> int (width f) - 2" "1 \<le> y" "y \<le> int (height f) - 2"
  shows "gy f x y = Some (spec_gy f x y)"
proof -
  have a: "data_at (data f) (((y - 1) * int (width f) + (x - 1)) * 4) = Some (spec_P f (x - 1) (y - 1))"
    using assms by (intro data_at_pixel) simp_all
  have b: "data_at (data f) (((y - 1) * int (width f) + x) * 4) = Some (spec_P f x (y - 1))"
    using assms by (intro data_at_pixel) simp_all
  have c: "data_at (data f) (((y - 1) * int (width f) + (x + 1)) * 4) = Some (spec_P f (x + 1) (y - 1))"
    using assms by (intro data_at_pixel) simp_all
  have d: "data_at (data f) (((y + 1) * int (width f) + (x - 1)) * 4) = Some (spec_P f (x - 1) (y + 1))"
    using assms by (intro data_at_pixel) simp_all
  have e: "data_at (data f) (((y + 1) * int (width f) + x) * 4) = Some (spec_P f x (y + 1))"
    using assms by (intro data_at_pixel) simp_all
  have g: "data_at (data f) (((y + 1) * int (width f) + (x + 1)) * 4) = Some (spec_P f (x + 1) (y + 1))"
    using assms by (intro data_at_pixel) simp_all
  show ?thesis
    unfolding gy_def a b c d e g by (simp add: spec_gy_def)
qed

lemma magnitude_spec:
  assumes "well_formed f" "1 \<le> x" "x \<le> int (width f) - 2" "1 \<le> y" "y \<le> int (height f) - 2"
  shows "magnitude f x y = Num (spec_magnitude f x y)"
proof -
  have "0 \<le> spec_gx f x y * spec_gx f x y + spec_gy f x y * spec_gy f x y"
    by simp
  then have "\<not> real_of_int (spec_gx f x y * spec_gx f x y + spec_gy f x y * spec_gy f x y) < 0"
    by linarith
  then show ?thesis
    unfolding magnitude_def gx_spec [OF assms] gy_spec [OF assms] spec_magnitude_def
    by (simp add: power2_eq_square)
qed

lemma is_edge_spec:
  assumes "well_formed f" "1 \<le> x" "x \<le> int (width f) - 2" "1 \<le> y" "y \<le> int (height f) - 2"
  shows "is_edge f x y \<longleftrightarrow> spec_magnitude f x y > 50"
  by (simp add: is_edge_def magnitude_spec [OF assms])

lemma edgeCount_spec:
  assumes "well_formed f"
  shows "edgeCount f = spec_edgeCount f"
proof -
  have "edges_from f 1 =
          {(x, y). 1 \<le> x \<and> x \<le> int (width f) - 2 \<and> 1 \<le> y \<and> y \<le> int (height f) - 2
             \<and> spec_magnitude f x y > 50}"
    unfolding edges_from_def using is_edge_spec [OF assms] by auto
  then show ?thesis
    by (simp add: edgeCount_card spec_edgeCount_def)
qed

section \<open>Small frames and the sample frames\<close>

lemma no_interior_no_edges:
  assumes "width f < 3 \<or> height f < 3"
  shows "edges_from f 1 = {}"
  using assms by (auto simp: edges_from_def)

lemma edgeCount_zero_absent:
  assumes "edgeCount f = 0"
  shows "\<not> detectRectangularObject f"
  using assms by (simp add: detectRectangularObject_def edgeRatio_def num_div_def)

lemma edges_from_3x3:
  assumes "width f = 3" "height f = 3"
  shows "edges_from f 1 = (if is_edge f 1 1 then {(1, 1)} else {})"
proof -
  have one: "v = 1" if "1 \<le> v" "v \<le> 1" for v :: int
    using that by linarith
  show ?thesis
    using assms by (auto simp: edges_from_def dest: one)
qed

lemma detect_3x3:
  assumes "width f = 3" "height f = 3"
  shows "edgeCount f = (if is_edge f 1 1 then 1 else 0)"
    and "detectRectangularObject f = is_edge f 1 1"
proof -
  show cnt: "edgeCount f = (if is_edge f 1 1 then 1 else 0)"
    by (simp add: edgeCount_card edges_from_3x3 [OF assms])
  show "detectRectangularObject f = is_edge f 1 1"
    by (simp add: detectRectangularObject_def edgeRatio_def num_div_def num_lt_def cnt assms)
qed

lemma gx_edge3: "gx edge3 1 1 = Some 1020"
  by (simp add: gx_def data_at_def edge3_def)

lemma gy_edge3: "gy edge3 1 1 = Some 0"
  by (simp add: gy_def data_at_def edge3_def)

lemma is_edge_edge3: "is_edge edge3 1 1"
  by (simp add: is_edge_def magnitude_def gx_edge3 gy_edge3 sqrt_gt_50)

lemma well_formed_edge3: "well_formed edge3"
  by (simp add: well_formed_def edge3_def)

lemma dims_edge3: "width edge3 = 3" "height edge3 = 3"
  by (simp_all add: edge3_def)

section \<open>Frames with the same red channel, frames with the same fields\<close>

lemma same_red_gradients:
  assumes "same_red f g" "1 \<le> x" "x \<le> int (width f) - 2" "1 \<le> y" "y \<le> int (height f) - 2"
  shows "spec_gx f x y = spec_gx g x y" and "spec_gy f x y = spec_gy g x y"
proof -
  have P: "spec_P f i j = spec_P g i j"
    if "0 \<le> i" "i < int (width f)" "0 \<le> j" "j < int (height f)" for i j
    using assms(1) that by (simp add: same_red_def)
  have "spec_P f (x - 1) (y - 1) = spec_P g (x - 1) (y - 1)"
       "spec_P f x (y - 1) = spec_P g x (y - 1)"
       "spec_P f (x + 1) (y - 1) = spec_P g (x + 1) (y - 1)"
       "spec_P f (x - 1) y = spec_P g (x - 1) y"
       "spec_P f (x + 1) y = spec_P g (x + 1) y"
       "spec_P f (x - 1) (y + 1) = spec_P g (x - 1) (y + 1)"
       "spec_P f x (y + 1) = spec_P g x (y + 1)"
       "spec_P f (x + 1) (y + 1) = spec_P g (x + 1) (y + 1)"
    using assms(2-5) by (simp_all add: P)
  then show "spec_gx f x y = spec_gx g x y" and "spec_gy f x y = spec_gy g x y"
    by (simp_all add: spec_gx_def spec_gy_def)
qed

lemma same_red_detect:
  assumes "well_formed f" "well_formed g" "same_red f g"
  shows "detectRectangularObject f = detectRectangularObject g"
proof -
  have dims: "width f = width g" "height f = height g"
    using assms(3) by (simp_all add: same_red_def)
  have "spec_magnitude f x y = spec_magnitude g x y"
    if "1 \<le> x" "x \<le> int (width f) - 2" "1 \<le> y" "y \<le> int (height f) - 2" for x y
    using same_red_gradients [OF assms(3) that] by (simp add: spec_magnitude_def)
  then have "spec_edgeCount f = spec_edgeCount g"
    unfolding spec_edgeCount_def dims [symmetric]
    by (intro arg_cong [where f = card]) auto
  then have "edgeCount f = edgeCount g"
    by (simp add: edgeCount_spec assms(1,2))
  then show ?thesis
    by (simp add: detectRectangularObject_def edgeRatio_def dims)
qed

lemma same_red_edge3: "same_red edge3_tinted edge3"
proof -
  have three: "v = 0 \<or> v = 1 \<or> v = 2" if "0 \<le> v" "v < 3" for v :: int
    using that by linarith
  have "spec_P edge3_tinted i j = spec_P edge3 i j" if "0 \<le> i" "i < 3" "0 \<le> j" "j < 3" for i j
    using three [OF that(1,2)] three [OF that(3,4)]
    by (auto simp: spec_P_def edge3_def edge3_tinted_def)
  then show ?thesis
    by (simp add: same_red_def edge3_def edge3_tinted_def)
qed

lemma well_formed_edge3_tinted: "well_formed edge3_tinted"
  by (simp add: well_formed_def edge3_tinted_def)

lemma gray_edge3: "gray edge3 1 1 = Some 0" "gray edge3_tinted 1 1 = Some 170"
  by (simp_all add: gray_def data_at_def edge3_def edge3_tinted_def)

lemma same_fields_edges:
  assumes "data f = data g" "width f = width g" "height f = height g"
  shows "edges_from f y = edges_from g y"
proof -
  have "gx f = gx g" "gy f = gy g"
    by (simp_all add: fun_eq_iff gx_def gy_def assms)
  then have "is_edge f = is_edge g"
    by (simp add: fun_eq_iff is_edge_def magnitude_def)
  then show ?thesis
    by (simp add: edges_from_def assms)
qed

section \<open>Flat frames\<close>

lemma flat_P:
  assumes "flat f" "0 \<le> i" "i < int (width f)" "0 \<le> j" "j < int (height f)"
  shows "spec_P f i j = uint (data f ! 0)"
proof -
  have "nat i < width f" "nat j < height f"
    using assms(2-5) by simp_all
  define p where "p = nat j * width f + nat i"
  have "p < width f * height f"
    unfolding p_def using \<open>nat i < width f\<close> \<open>nat j < height f\<close> by (rule pixel_index_bound)
  then have "data f ! (4 * p) = data f ! 0"
    using assms(1) unfolding flat_def by blast
  moreover have "spec_P f i j = uint (data f ! (4 * p))"
    by (simp add: spec_P_def p_def)
  ultimately show ?thesis
    by (simp only:)
qed

lemma flat_gradients:
  assumes "flat f" "1 \<le> x" "x \<le> int (width f) - 2" "1 \<le> y" "y \<le> int (height f) - 2"
  shows "spec_gx f x y = 0" and "spec_gy f x y = 0"
proof -
  have "spec_P f (x - 1) (y - 1) = uint (data f ! 0)"
       "spec_P f x (y - 1) = uint (data f ! 0)"
       "spec_P f (x + 1) (y - 1) = uint (data f ! 0)"
       "spec_P f (x - 1) y = uint (data f ! 0)"
       "spec_P f (x + 1) y = uint (data f ! 0)"
       "spec_P f (x - 1) (y + 1) = uint (data f ! 0)"
       "spec_P f x (y + 1) = uint (data f ! 0)"
       "spec_P f (x + 1) (y + 1) = uint (data f ! 0)"
    using assms(2-5) by (simp_all add: flat_P [OF assms(1)])
  then show "spec_gx f x y = 0" and "spec_gy f x y = 0"
    by (simp_all add: spec_gx_def spec_gy_def)
qed

lemma flat_magnitude:
  assumes "well_formed f" "flat f" "1 \<le> x" "x \<le> int (width f) - 2" "1 \<le> y"
    "y \<le> int (height f) - 2"
  shows "magnitude f x y = Num 0"
  using flat_gradients [OF assms(2-6)]
  by (simp add: magnitude_spec [OF assms(1,3-6)] spec_magnitude_def)

lemma flat_no_edges:
  assumes "well_formed f" "flat f"
  shows "edges_from f 1 = {}"
  using flat_magnitude [OF assms] by (auto simp: edges_from_def is_edge_def)

lemma nth_concat_replicate4:
  assumes "p < n" "k < 4"
  shows "concat (replicate n [r, g, b, a]) ! (4 * p + k) = [r, g, b, a] ! k"
  using assms
proof (induction n arbitrary: p)
  case 0
  then show ?case by simp
next
  case (Suc n)
  show ?case
  proof (cases p)
    case 0
    have "k = 0 \<or> k = 1 \<or> k = 2 \<or> k = 3"
      using Suc.prems(2) by linarith
    then show ?thesis
      using 0 by auto
  next
    case (Suc q)
    then have q: "q < n"
      using Suc.prems(1) by simp
    have "concat (replicate (Suc n) [r, g, b, a]) ! (4 * p + k)
            = concat (replicate n [r, g, b, a]) ! (4 * q + k)"
      by (simp add: Suc nth_append nth_Cons')
    then show ?thesis
      using Suc.IH [OF q Suc.prems(2)] by simp
  qed
qed

lemma well_formed_solid: "well_formed (solid w h r g b a)"
  by (simp add: well_formed_def solid_def length_concat sum_list_replicate)

lemma flat_solid: "flat (solid w h r g b a)"
  unfolding flat_def
proof (intro allI impI)
  fix p
  assume "p < width (solid w h r g b a) * height (solid w h r g b a)"
  then have p: "p < w * h"
    by (simp add: solid_def)
  then have z: "0 < w * h"
    by (rule le_less_trans [OF le0])
  have d: "data (solid w h r g b a) = concat (replicate (w * h) [r, g, b, a])"
    by (simp add: solid_def)
  show "data (solid w h r g b a) ! (4 * p) = data (solid w h r g b a) ! 0
        \<and> data (solid w h r g b a) ! (4 * p + 1) = data (solid w h r g b a) ! 1
        \<and> data (solid w h r g b a) ! (4 * p + 2) = data (solid w h r g b a) ! 2"
    unfolding d
    using nth_concat_replicate4 [OF p, of 0 r g b a] nth_concat_replicate4 [OF p, of 1 r g b a]
      nth_concat_replicate4 [OF p, of 2 r g b a] nth_concat_replicate4 [OF z, of 0 r g b a]
      nth_concat_replicate4 [OF z, of 1 r g b a] nth_concat_replicate4 [OF z, of 2 r g b a]
    by (simp add: numeral_2_eq_2)
qed

section \<open>The tick under the two readings of \<open>this\<close>\<close>

lemma detectPhone_module_this: "detectPhone module_this (Some f) s = Inl TypeError"
  by (simp add: detectPhone_def this_phoneDetected_def module_this_def)

text \<open>
  Were \<open>this\<close> an object, it would have no property \<open>phoneDetected\<close> (nothing assigns one):
  the test would read \<open>undefined\<close> and every tick that detects would notify again.
\<close>

lemma detectPhone_object_this:
  "detectRectangularObject f \<Longrightarrow>
   detectPhone (Some Map.empty) (Some f) s =
     Inr (s\<lparr>phoneDetected := True, showPhoneToast := True, timeouts := timeouts s @ [5000]\<rparr>)"
  by (simp add: detectPhone_def this_phoneDetected_def)

section \<open>Scores of the evaluation handler\<close>









text \<open>The rounding shows: the exact product is below 2 and would give the score 7.\<close>

lemma fallback_parse_two_thirds:
  "score (fallback_parse \<lparr>significand = 6004799503160661, scale = 53\<rparr>) = Num 8"
  by (simp add: fallback_parse_def times_3_def round_even_def Let_def)





section \<open>The claims\<close>

text \<open>
  C1. For every frame of width \<open>W \<ge> 1\<close> and height \<open>H \<ge> 1\<close>, the detector returns
  \<open>present = (edgeRatio > 0.02) AND (edgeRatio < 0.15)\<close>, where \<open>edgeRatio\<close> is \<open>edgeCount\<close>
  divided by the full frame area \<open>W * H\<close>, and \<open>edgeCount\<close> is the number of interior pixels
  (\<open>1 \<le> x \<le> W - 2\<close>, \<open>1 \<le> y \<le> H - 2\<close>) whose gradient magnitude \<open>sqrt (gx^2 + gy^2)\<close> is
  strictly greater than 50: the two loops with their counter compute \<open>spec_edgeCount\<close>, the
  quotient is \<open>spec_edgeRatio\<close>, and the result is \<open>spec_present\<close>.
\<close>

theorem detectRectangularObject_band:
  assumes "well_formed f" "1 \<le> width f" "1 \<le> height f"
  shows "edgeCount f = spec_edgeCount f
         \<and> edgeRatio f = Num (spec_edgeRatio f)
         \<and> detectRectangularObject f = spec_present f"
proof -
  have cnt: "edgeCount f = spec_edgeCount f"
    by (rule edgeCount_spec [OF assms(1)])
  have "width f * height f \<noteq> 0"
    using assms(2,3) by simp
  then have ratio: "edgeRatio f = Num (spec_edgeRatio f)"
    by (simp add: edgeRatio_def num_div_def cnt spec_edgeRatio_def)
  show ?thesis
    by (simp add: cnt ratio detectRectangularObject_def spec_present_def num_lt_def)
qed

theorem detectRectangularObject_band_witness:
  "well_formed edge3 \<and> 1 \<le> width edge3 \<and> 1 \<le> height edge3
   \<and> spec_edgeCount edge3 = 1 \<and> spec_edgeRatio edge3 = 1 / 9 \<and> spec_present edge3"
  using detectRectangularObject_band [of edge3] detect_3x3 [OF dims_edge3] is_edge_edge3
    well_formed_edge3
  by (simp add: dims_edge3 spec_edgeRatio_def)

text \<open>
  C2. For every interior pixel \<open>(x, y)\<close> of a well-formed frame, the gradients the detector
  uses are the 3x3 Sobel formulas over the raw red-channel values \<open>P(i, j)\<close> of the eight
  neighbours, \<open>gx = -P(x-1,y-1) + P(x+1,y-1) - 2*P(x-1,y) + 2*P(x+1,y) - P(x-1,y+1) + P(x+1,y+1)\<close>
  and \<open>gy\<close> alike. The grayscale mean is not what the kernel reads: a frame with the same red
  channel has the same gradients, whatever its green and blue channels are.
\<close>

theorem gradients_read_red_channel:
  assumes "well_formed f" "1 \<le> x" "x \<le> int (width f) - 2" "1 \<le> y" "y \<le> int (height f) - 2"
  shows "gx f x y = Some (spec_gx f x y) \<and> gy f x y = Some (spec_gy f x y)
         \<and> (\<forall>g :: 'a ImageData_scheme. well_formed g \<and> same_red g f
               \<longrightarrow> gx g x y = gx f x y \<and> gy g x y = gy f x y)"
proof -
  have "gx g x y = gx f x y \<and> gy g x y = gy f x y"
    if g: "well_formed g" "same_red g f" for g :: "'a ImageData_scheme"
  proof -
    have dims: "width g = width f" "height g = height f"
      using g(2) by (simp_all add: same_red_def)
    have int: "1 \<le> x" "x \<le> int (width g) - 2" "1 \<le> y" "y \<le> int (height g) - 2"
      using assms(2-5) by (simp_all add: dims)
    show ?thesis
      using same_red_gradients [OF g(2) int]
      by (simp add: gx_spec [OF g(1) int] gy_spec [OF g(1) int] gx_spec [OF assms] gy_spec [OF assms])
  qed
  then show ?thesis
    by (simp add: gx_spec [OF assms] gy_spec [OF assms])
qed

theorem gradients_read_red_channel_witness:
  "well_formed edge3 \<and> (1::int) \<le> 1 \<and> 1 \<le> int (width edge3) - 2 \<and> 1 \<le> int (height edge3) - 2
   \<and> gx edge3 1 1 = Some (spec_gx edge3 1 1) \<and> gy edge3 1 1 = Some (spec_gy edge3 1 1)
   \<and> well_formed edge3_tinted \<and> same_red edge3_tinted edge3
   \<and> gx edge3_tinted 1 1 = Some 1020 \<and> gy edge3_tinted 1 1 = Some 0
   \<and> gray edge3_tinted 1 1 \<noteq> gray edge3 1 1"
  using gradients_read_red_channel [of edge3 1 1] well_formed_edge3 well_formed_edge3_tinted
    same_red_edge3 gx_edge3 gy_edge3 gray_edge3
  by (auto simp: dims_edge3)

text \<open>
  C3. The detector is total: for every frame, also one of width 0 or of height 0, and in every
  state of the component, the run returns a boolean and leaves the state as it was; nothing
  in it can throw, a read outside the buffer and the quotient \<open>0 / 0\<close> being values. For a
  frame of width 0 or of height 0 no interior pixel is evaluated, the ratio is NaN, both
  comparisons are false and the result is \<open>present = false\<close>.
\<close>

theorem detectRectangularObject_total:
  "(\<exists>b. run_detectRectangularObject f s = Some (b, s))
   \<and> (width f = 0 \<or> height f = 0 \<longrightarrow>
        run_detectRectangularObject f s = Some (False, s) \<and> edgeCount f = 0 \<and> edgeRatio f = NaN)"
proof -
  have "edgeCount f = 0 \<and> edgeRatio f = NaN \<and> \<not> detectRectangularObject f"
    if deg: "width f = 0 \<or> height f = 0"
  proof -
    have "width f < 3 \<or> height f < 3"
      using deg by auto
    then have cnt: "edgeCount f = 0"
      by (simp add: edgeCount_card no_interior_no_edges)
    have "width f * height f = 0"
      using deg by auto
    then have "edgeRatio f = NaN"
      by (simp add: edgeRatio_def num_div_def cnt)
    then show ?thesis
      using cnt by (simp add: detectRectangularObject_def)
  qed
  then show ?thesis
    by (simp add: run_detect_returns)
qed

theorem detectRectangularObject_total_witness:
  "(width (solid 0 5 1 2 3 4) = 0 \<or> height (solid 0 5 1 2 3 4) = 0)
   \<and> run_detectRectangularObject (solid 0 5 1 2 3 4) recording = Some (False, recording)
   \<and> edgeCount (solid 0 5 1 2 3 4) = 0 \<and> edgeRatio (solid 0 5 1 2 3 4) = NaN"
  using detectRectangularObject_total [of "solid 0 5 1 2 3 4" recording] by (simp add: solid_def)

text \<open>
  C4, as the specification states it: for every 3x3 frame zero interior pixels are evaluated,
  so \<open>edgeCount = 0\<close> and \<open>present = false\<close>. The frame \<open>edge3\<close> refutes it: the loops
  evaluate the centre pixel, which is an edge, and \<open>1 / 9\<close> lies inside the band.
\<close>

theorem frame_3x3_counterexample:
  "width edge3 = 3 \<and> height edge3 = 3 \<and> edgeCount edge3 = 1 \<and> detectRectangularObject edge3"
  using detect_3x3 [OF dims_edge3] is_edge_edge3 by (simp add: dims_edge3)

text \<open>
  C4, amended. For every 3x3 frame exactly one interior pixel, the centre \<open>(1, 1)\<close>, is
  evaluated: \<open>edgeCount\<close> is 1 when the gradient magnitude there exceeds 50 and 0 otherwise,
  and \<open>present\<close> is true exactly when it exceeds 50.
\<close>

theorem frame_3x3_centre:
  assumes "width f = 3" "height f = 3"
  shows "{(x, y). 1 \<le> x \<and> x \<le> int (width f) - 2 \<and> 1 \<le> y \<and> y \<le> int (height f) - 2} = {(1, 1)}
         \<and> edgeCount f = (if num_gt (magnitude f 1 1) (Num 50) then 1 else 0)
         \<and> detectRectangularObject f = num_gt (magnitude f 1 1) (Num 50)"
proof -
  have one: "v = 1" if "1 \<le> v" "v \<le> 1" for v :: int
    using that by linarith
  have "{(x, y). 1 \<le> x \<and> x \<le> int (width f) - 2 \<and> 1 \<le> y \<and> y \<le> int (height f) - 2} = {(1, 1)}"
    using assms by (auto dest: one)
  then show ?thesis
    using detect_3x3 [OF assms] by (simp add: is_edge_def)
qed

theorem frame_3x3_centre_witness:
  "width edge3 = 3 \<and> height edge3 = 3 \<and> edgeCount edge3 = 1 \<and> detectRectangularObject edge3
   \<and> num_gt (magnitude edge3 1 1) (Num 50)"
  using frame_3x3_centre [of edge3] is_edge_edge3 by (simp add: dims_edge3 is_edge_def)

text \<open>
  C6. The detector is deterministic and stateless: two calls on frames with the same pixel
  buffer, width and height, made in any two states of the component (whatever happened
  between them), both return, with the same result, and each leaves the state as it found
  it. The result is a function of the frame alone.
\<close>

theorem detectRectangularObject_deterministic:
  fixes f :: "'a ImageData_scheme" and g :: "'b ImageData_scheme"
  assumes "data f = data g" "width f = width g" "height f = height g"
  shows "\<exists>b. run_detectRectangularObject f s = Some (b, s)
           \<and> run_detectRectangularObject g t = Some (b, t)"
proof -
  have "detectRectangularObject f = detectRectangularObject g"
    by (simp add: detectRectangularObject_def edgeRatio_def edgeCount_card
        same_fields_edges [OF assms] assms)
  then show ?thesis
    by (simp add: run_detect_returns)
qed

theorem detectRectangularObject_deterministic_witness:
  "data edge3_srgb = data edge3 \<and> width edge3_srgb = width edge3
   \<and> height edge3_srgb = height edge3
   \<and> run_detectRectangularObject edge3 idle = Some (True, idle)
   \<and> run_detectRectangularObject edge3_srgb recording = Some (True, recording)"
proof -
  have same: "data edge3_srgb = data edge3" "width edge3_srgb = width edge3"
    "height edge3_srgb = height edge3"
    by (simp_all add: edge3_srgb_def ImageData.defs)
  have "run_detectRectangularObject edge3 idle = Some (True, idle)"
    using detect_3x3(2) [OF dims_edge3] is_edge_edge3 by (simp add: run_detect_returns)
  then show ?thesis
    using detectRectangularObject_deterministic [OF same, of recording idle] same by auto
qed

text \<open>
  C8. The green, blue and alpha channels do not interfere: two well-formed frames of equal
  width and height whose red-channel values agree at every pixel get the same result.
\<close>

theorem red_channel_only:
  assumes "well_formed f" "well_formed g" "same_red f g"
  shows "detectRectangularObject f = detectRectangularObject g"
  by (rule same_red_detect [OF assms])

theorem red_channel_only_witness:
  "well_formed edge3_tinted \<and> well_formed edge3 \<and> same_red edge3_tinted edge3
   \<and> data edge3_tinted \<noteq> data edge3
   \<and> detectRectangularObject edge3_tinted = detectRectangularObject edge3"
  using red_channel_only [of edge3_tinted edge3] well_formed_edge3 well_formed_edge3_tinted
    same_red_edge3
  by (simp add: edge3_def edge3_tinted_def)

text \<open>
  C9. For every frame with width below 3 or height below 3 there is no interior pixel: the
  loops leave the counter as it was, so \<open>edgeCount = 0\<close> and \<open>present = false\<close>.
\<close>

theorem small_frame_absent:
  assumes "width f < 3 \<or> height f < 3"
  shows "{(x, y). 1 \<le> x \<and> x \<le> int (width f) - 2 \<and> 1 \<le> y \<and> y \<le> int (height f) - 2} = {}
         \<and> (\<forall>c. rows f 1 c = c) \<and> edgeCount f = 0 \<and> \<not> detectRectangularObject f"
proof -
  have "{(x, y). 1 \<le> x \<and> x \<le> int (width f) - 2 \<and> 1 \<le> y \<and> y \<le> int (height f) - 2} = {}"
    using assms by auto
  moreover have "\<forall>c. rows f 1 c = c"
    by (simp add: rows_count no_interior_no_edges [OF assms])
  moreover have cnt: "edgeCount f = 0"
    by (simp add: edgeCount_card no_interior_no_edges [OF assms])
  ultimately show ?thesis
    using edgeCount_zero_absent [OF cnt] by simp
qed

theorem small_frame_absent_witness:
  "(width (solid 2 7 10 20 30 255) < 3 \<or> height (solid 2 7 10 20 30 255) < 3)
   \<and> edgeCount (solid 2 7 10 20 30 255) = 0 \<and> \<not> detectRectangularObject (solid 2 7 10 20 30 255)"
  using small_frame_absent [of "solid 2 7 10 20 30 255"] by (simp add: solid_def)

text \<open>
  C5. For every uniformly flat frame the gradient magnitude is 0 at every interior pixel, so
  \<open>edgeCount = 0\<close>, \<open>edgeRatio = 0\<close> (the frame having at least one pixel) and
  \<open>present = false\<close>; so it is for the 10x10 frame with all pixels RGB = (128, 128, 128).
\<close>

theorem flat_frame_absent:
  assumes "well_formed f" "flat f"
  shows "(\<forall>x y. 1 \<le> x \<and> x \<le> int (width f) - 2 \<and> 1 \<le> y \<and> y \<le> int (height f) - 2
            \<longrightarrow> magnitude f x y = Num 0)
         \<and> edgeCount f = 0
         \<and> (1 \<le> width f \<and> 1 \<le> height f \<longrightarrow> edgeRatio f = Num 0)
         \<and> \<not> detectRectangularObject f"
proof -
  have cnt: "edgeCount f = 0"
    by (simp add: edgeCount_card flat_no_edges [OF assms])
  have "edgeRatio f = Num 0" if "1 \<le> width f" "1 \<le> height f"
    using that by (simp add: edgeRatio_def num_div_def cnt)
  then show ?thesis
    using flat_magnitude [OF assms] edgeCount_zero_absent [OF cnt] cnt by simp
qed

theorem flat_frame_absent_witness:
  "well_formed (solid 10 10 128 128 128 255) \<and> flat (solid 10 10 128 128 128 255)
   \<and> magnitude (solid 10 10 128 128 128 255) 1 1 = Num 0
   \<and> edgeCount (solid 10 10 128 128 128 255) = 0
   \<and> edgeRatio (solid 10 10 128 128 128 255) = Num 0
   \<and> \<not> detectRectangularObject (solid 10 10 128 128 128 255)"
proof -
  have dims: "width (solid 10 10 128 128 128 255) = 10" "height (solid 10 10 128 128 128 255) = 10"
    by (simp_all add: solid_def)
  show ?thesis
    using flat_frame_absent [OF well_formed_solid flat_solid, of 10 10 128 128 128 255]
    by (simp add: dims well_formed_solid flat_solid)
qed

text \<open>
  C7, at a failing tick. The claim: a notification fires exactly when the detector's result is
  true and the stored previous result was false. At the first tick that detects (\<open>edge3\<close>,
  with the stored flag false) the source reads \<open>this.phoneDetected\<close>, which throws: no state
  is written and no notification appears.
\<close>

theorem detectPhone_first_detection_throws:
  "detectRectangularObject edge3 \<and> \<not> phoneDetected idle
   \<and> detectPhone module_this (Some edge3) idle = Inl TypeError"
  using detect_3x3(2) [OF dims_edge3] is_edge_edge3
  by (simp add: detectPhone_module_this idle_def)



end
